theory Spec2Isabelle
  imports Main
begin

section \<open>Time\<close>

text \<open>
  Every timestamp of the application is a civil time of one fixed zone: \<open>KST\<close>.
  \<open>_ensure_aware\<close> attaches that zone to a naive value and returns an aware one as it
  is, and Python compares and offsets two aware values of one zone by their civil
  time. A \<open>datetime\<close> is therefore the number of microseconds since the midnight that
  begins day 0 of the proleptic Gregorian ordinal (\<open>date.toordinal()\<close>), and a \<open>date\<close>
  is that ordinal. A nullable column is an \<open>option\<close>; a \<open>datetime\<close> and a \<open>date\<close>
  are always truthy in Python, so \<open>if x\<close> on such a column tests \<open>x \<noteq> None\<close>.
\<close>

type_synonym date = int
type_synonym datetime = int

definition us_per_hour :: int where
  "us_per_hour = 3600 * 1000000"

definition us_per_day :: int where
  "us_per_day = 24 * us_per_hour"

text \<open>\<open>timedelta(hours=h)\<close> and \<open>timedelta(days=d)\<close>, in microseconds.\<close>

definition timedelta_hours :: "int \<Rightarrow> int" where
  "timedelta_hours h = h * us_per_hour"

definition timedelta_days :: "int \<Rightarrow> int" where
  "timedelta_days d = d * us_per_day"

text \<open>\<open>datetime.combine(d, datetime.min.time(), tzinfo=KST)\<close>: midnight of day \<open>d\<close>.\<close>

definition midnight :: "date \<Rightarrow> datetime" where
  "midnight d = d * us_per_day"

text \<open>\<open>_ensure_aware\<close>: \<open>None\<close> stays \<open>None\<close>, a value keeps its civil time.\<close>

definition ensure_aware :: "datetime option \<Rightarrow> datetime option" where
  "ensure_aware dt = (case dt of None \<Rightarrow> None | Some t \<Rightarrow> Some t)"

section \<open>Insurance applications\<close>

text \<open>
  The column \<open>status\<close> holds one of four strings (check constraint
  \<open>ck_ins_app_status\<close>): \<open>Applied\<close> is the string for "applied", \<open>UnionApproved\<close> the one
  for "union approved", \<open>Active\<close> the one for "joined" and \<open>Expired\<close> the one for
  "ended".
\<close>

datatype status = Applied | UnionApproved | Active | Expired

text \<open>
  The row of table \<open>insurance_application\<close>, without its primary key \<open>id\<close>: the
  table below is keyed by it. \<open>desired_start_date\<close> is declared \<open>nullable=False\<close>,
  so a row read from the store carries a date.
\<close>

record insurance_application =
  partner_group_id :: int
  desired_start_date :: date
  start_at :: "datetime option"
  end_at :: "datetime option"
  approved_at :: "datetime option"
  insured_code :: string
  contractor_code :: string
  car_plate :: string
  vin :: string
  car_name :: string
  car_registered_at :: "date option"
  premium :: int
  status :: status
  memo :: string
  insurance_policy_path :: "string option"
  insurance_policy_url :: "string option"
  created_by_member_id :: "int option"

text \<open>
  \<open>InsuranceApplication.recompute_status\<close>, with the clock reading \<open>now\<close> as an
  argument. \<open>end_at_local\<close> is read before the activation branch runs, so the expiry
  test sees the \<open>end_at\<close> the row had on entry.
\<close>

definition activate :: "insurance_application \<Rightarrow> insurance_application" where
  "activate a =
     (if start_at a = None
      then a\<lparr>start_at := Some (midnight (desired_start_date a)),
              end_at := Some (midnight (desired_start_date a) + timedelta_days 30),
              status := Active\<rparr>
      else a\<lparr>status := Active\<rparr>)"

definition recompute_status :: "datetime \<Rightarrow> insurance_application \<Rightarrow> insurance_application" where
  "recompute_status now a =
     (let approved_at_local = ensure_aware (approved_at a);
          end_at_local = ensure_aware (end_at a);
          a1 = (if status a = Applied \<or> status a = UnionApproved
                then (case approved_at_local of
                        None \<Rightarrow> a
                      | Some t \<Rightarrow> if now \<ge> t + timedelta_hours 2 then activate a else a)
                else a)
      in (case end_at_local of
            None \<Rightarrow> a1
          | Some e \<Rightarrow> if now \<ge> e then a1\<lparr>status := Expired\<rparr> else a1))"


text \<open>
  The body of the single approval and of each round of the bulk approval in
  \<open>partner_admin_insurance_approval\<close>. The date in
  \<open>if application.desired_start_date and not application.start_at\<close> is always truthy.
\<close>

definition partner_approve :: "datetime \<Rightarrow> insurance_application \<Rightarrow> insurance_application" where
  "partner_approve now a =
     (let a1 = a\<lparr>approved_at := Some now, status := UnionApproved\<rparr>;
          a2 = (if start_at a1 = None
                then a1\<lparr>start_at := Some (midnight (desired_start_date a1))\<rparr>
                else a1)
      in (case start_at a2 of
            None \<Rightarrow> a2
          | Some s \<Rightarrow> if end_at a2 = None
                      then a2\<lparr>end_at := Some (s + timedelta_days 30)\<rparr>
                      else a2))"



section \<open>Requests and responses\<close>


datatype category = Success | Danger | Warning

text \<open>The flashed messages, named by what they say.\<close>

datatype message =
    Deleted | DeleteError | NoDeleteAfterApproval
  | Saved | SaveError | NoEditAfterApproval | NoChangeAfterApproval
  | ApprovedMsg | ApproveError | BulkApproved | BulkApproveError
  | MemoSaved | MemoSaveError
  | PartnerAdminOnly | NoPartnerGroup | NoPermission | PageLoadError
  | PrivacyAgreementRequired | SelectPartnerGroup | PartnerGroupMissing | BadPartnerGroup
  | DuplicateUsername | DuplicateBusinessNumber | RegisterError | RegisterAccepted
  | RequiredFields | DuplicatePartnerGroup | PartnerGroupCreateError | PartnerGroupCreated
  | UserInfoError | DbConnectionError | UserNotFound | AdminOnly | ApprovedAdminOnly
  | ApprovalUnknown | AuthCheckError

type_synonym flash = "category \<times> message"

datatype error = ValueError

text \<open>
  An id field of a form: absent or empty, text that \<open>int()\<close> rejects, or an integer.
\<close>

datatype id_field = NoId | BadId | GivenId int







subsection \<open>The member's own page\<close>




subsection \<open>The partner group's application page\<close>



subsection \<open>The partner administrator's approval page\<close>






subsection \<open>The global administrator's application page\<close>





section \<open>Members and partner groups\<close>

text \<open>
  The column \<open>approval_status\<close> of a member holds one of two strings (check constraint
  \<open>ck_member_approval_status\<close>): the one for "applied" and the one for "approved". The
  column \<open>member_type\<close> holds the string for "corporate" or the one for "individual";
  \<open>OtherType\<close> is any other text of the form field, which the check constraint
  \<open>ck_member_type\<close> refuses at the commit.
\<close>

datatype approval = ApprovalApplied | ApprovalApproved

datatype member_type = Corporate | Individual | OtherType

record member =
  member_partner_group_id :: "int option"
  username :: string
  password_hash :: string
  company_name :: "string option"
  address :: "string option"
  business_number :: "string option"
  corporation_number :: "string option"
  representative :: "string option"
  phone :: "string option"
  mobile :: "string option"
  email :: "string option"
  registration_cert_path :: "string option"
  member_type :: member_type
  privacy_agreement :: bool
  approval_status :: approval
  role :: string

record partner_group =
  pg_name :: string
  pg_admin_username :: string
  pg_admin_password_hash :: string
  pg_business_number :: string
  pg_representative :: string
  pg_phone :: string
  pg_mobile :: string
  pg_address :: string
  pg_bank_name :: string
  pg_account_number :: string
  pg_registration_cert_path :: "string option"
  pg_logo_path :: "string option"
  pg_memo :: string

section \<open>Settlement\<close>

subsection \<open>The first day of a month\<close>

text \<open>
  \<open>datetime(year, month, 1, tzinfo=KST)\<close>, as Python's \<open>datetime\<close> module computes the
  ordinal of a day (\<open>_is_leap\<close>, \<open>_days_before_year\<close>, \<open>_days_before_month\<close>,
  \<open>_ymd2ord\<close>), with the \<open>ValueError\<close> of a year outside 1..9999, a month outside
  1..12 or a day outside the month.
\<close>

definition is_leap :: "int \<Rightarrow> bool" where
  "is_leap year = (year mod 4 = 0 \<and> (year mod 100 \<noteq> 0 \<or> year mod 400 = 0))"

definition days_before_year :: "int \<Rightarrow> int" where
  "days_before_year year =
     (let y = year - 1 in y * 365 + y div 4 - y div 100 + y div 400)"

definition days_in_month :: "int \<Rightarrow> int \<Rightarrow> int" where
  "days_in_month year month =
     (if month = 2 \<and> is_leap year then 29
      else [31, 28, 31, 30, 31, 30, 31, 31, 30, 31, 30, 31] ! nat (month - 1))"

definition days_before_month :: "int \<Rightarrow> int \<Rightarrow> int" where
  "days_before_month year month =
     [0, 31, 59, 90, 120, 151, 181, 212, 243, 273, 304, 334] ! nat (month - 1)
       + (if month > 2 \<and> is_leap year then 1 else 0)"

definition ymd2ord :: "int \<Rightarrow> int \<Rightarrow> int \<Rightarrow> date" where
  "ymd2ord year month day = days_before_year year + days_before_month year month + day"

definition datetime_ymd :: "int \<Rightarrow> int \<Rightarrow> int \<Rightarrow> error + datetime" where
  "datetime_ymd year month day =
     (if 1 \<le> year \<and> year \<le> 9999 \<and> 1 \<le> month \<and> month \<le> 12
      then (if 1 \<le> day \<and> day \<le> days_in_month year month
            then Inr (midnight (ymd2ord year month day)) else Inl ValueError)
      else Inl ValueError)"

text \<open>
  \<open>start_period\<close> and \<open>next_month\<close> of the three settlement handlers, and the filter
  \<open>start_at IS NOT NULL AND start_at >= start_period AND start_at < next_month\<close>.
\<close>

definition settlement_period :: "int \<Rightarrow> int \<Rightarrow> error + (datetime \<times> datetime)" where
  "settlement_period year month =
     (case datetime_ymd year month 1 of
        Inl e \<Rightarrow> Inl e
      | Inr start_period \<Rightarrow>
          (case (if month = 12 then datetime_ymd (year + 1) 1 1
                 else datetime_ymd year (month + 1) 1) of
             Inl e \<Rightarrow> Inl e
           | Inr next_month \<Rightarrow> Inr (start_period, next_month)))"

definition in_period :: "datetime \<times> datetime \<Rightarrow> insurance_application \<Rightarrow> bool" where
  "in_period p a =
     (case start_at a of
        None \<Rightarrow> False
      | Some t \<Rightarrow> fst p \<le> t \<and> t < snd p)"

text \<open>
  The relationships \<open>created_by_member\<close> and \<open>partner_group\<close> of an application: the
  row its foreign key names, \<open>None\<close> without one.
\<close>

definition created_by_member ::
  "(int \<rightharpoonup> member) \<Rightarrow> insurance_application \<Rightarrow> member option" where
  "created_by_member members a =
     (case created_by_member_id a of None \<Rightarrow> None | Some i \<Rightarrow> members i)"

text \<open>\<open>value or ''\<close> on a nullable text column.\<close>

definition or_empty :: "string option \<Rightarrow> string" where
  "or_empty v = (case v of None \<Rightarrow> [] | Some t \<Rightarrow> t)"

subsection \<open>The global administrator's monthly settlement\<close>

text \<open>The bucket of an application without creator: the two-syllable word for "unknown", in UTF-8.\<close>

definition unknown_company :: string where
  "unknown_company = map char_of [0xEB, 0xAF, 0xB8, 0xEC, 0x83, 0x81 :: nat]"

type_synonym company_key = "string option \<times> string option \<times> string option"

definition admin_company_key :: "(int \<rightharpoonup> member) \<Rightarrow> insurance_application \<Rightarrow> company_key" where
  "admin_company_key members r =
     (case created_by_member members r of
        None \<Rightarrow> (Some unknown_company, Some [], Some [])
      | Some m \<Rightarrow> (company_name m, representative m, business_number m))"

text \<open>
  \<open>by_company.setdefault(key, 0); by_company[key] += 1\<close> on a dictionary in insertion
  order.
\<close>

fun count_key :: "'k \<Rightarrow> ('k \<times> int) list \<Rightarrow> ('k \<times> int) list" where
  "count_key key [] = [(key, 1)]"
| "count_key key ((k, c) # rest) =
     (if k = key then (k, c + 1) # rest else (k, c) # count_key key rest)"

record 'k settlement =
  company :: 'k
  count :: int
  amount :: int

record 'k settlement_page =
  settlements :: "'k settlement list"
  total_count :: int
  total_amount :: int

text \<open>The grouping and the totals, on the rows the query returned.\<close>

definition admin_aggregate ::
  "(int \<rightharpoonup> member) \<Rightarrow> insurance_application list \<Rightarrow> company_key settlement_page" where
  "admin_aggregate members rows =
     (let by_company = foldl (\<lambda>d r. count_key (admin_company_key members r) d) [] rows;
          settlements = map (\<lambda>(key, c). \<lparr>company = key, count = c, amount = c * 9500\<rparr>)
                          by_company
      in \<lparr>settlements = settlements,
          total_count = sum_list (map count settlements),
          total_amount = sum_list (map amount settlements)\<rparr>)"

text \<open>
  \<open>admin_settlement\<close>, with \<open>year\<close> and \<open>month\<close> the integers of the query
  arguments. No \<open>try\<close> surrounds the dates: their \<open>ValueError\<close> leaves the handler.
\<close>

definition admin_settlement ::
  "int \<Rightarrow> int \<Rightarrow> (int \<rightharpoonup> member) \<Rightarrow> insurance_application list
     \<Rightarrow> error + company_key settlement_page" where
  "admin_settlement year month members apps =
     (case settlement_period year month of
        Inl e \<Rightarrow> Inl e
      | Inr p \<Rightarrow> Inr (admin_aggregate members (filter (in_period p) apps)))"

subsection \<open>The partner administrator's settlement\<close>

text \<open>
  One round of the aggregation loop: a new key starts at count 0 and amount 0, then the
  count grows by one and the amount by the unit price.
\<close>

fun add_application :: "int \<Rightarrow> 'k \<Rightarrow> 'k settlement list \<Rightarrow> 'k settlement list" where
  "add_application price key [] = [\<lparr>company = key, count = 0 + 1, amount = 0 + price\<rparr>]"
| "add_application price key (s # rest) =
     (if company s = key then s\<lparr>count := count s + 1, amount := amount s + price\<rparr> # rest
      else s # add_application price key rest)"

type_synonym partner_key = "string \<times> string \<times> string"

definition partner_company_key ::
  "(int \<rightharpoonup> member) \<Rightarrow> insurance_application \<Rightarrow> partner_key option" where
  "partner_company_key members app =
     (case created_by_member members app of
        None \<Rightarrow> None
      | Some m \<Rightarrow>
          Some (or_empty (company_name m), or_empty (representative m),
                or_empty (business_number m)))"

text \<open>An application without creator is passed over.\<close>

definition partner_round ::
  "(int \<rightharpoonup> member) \<Rightarrow> partner_key settlement list \<Rightarrow> insurance_application
     \<Rightarrow> partner_key settlement list" where
  "partner_round members d app =
     (case partner_company_key members app of
        None \<Rightarrow> d
      | Some company_key \<Rightarrow> add_application 9500 company_key d)"

text \<open>
  The query arguments \<open>year\<close> and \<open>month\<close>: \<open>None\<close> when the argument is absent or not
  an integer, which gives the current year or month, as a value out of range does.
\<close>

definition partner_year :: "int option \<Rightarrow> int \<Rightarrow> int" where
  "partner_year arg now_year =
     (let year = (case arg of None \<Rightarrow> now_year | Some v \<Rightarrow> v)
      in if year < 2000 \<or> year > 2100 then now_year else year)"

definition partner_month :: "int option \<Rightarrow> int \<Rightarrow> int" where
  "partner_month arg now_month =
     (let month = (case arg of None \<Rightarrow> now_month | Some v \<Rightarrow> v)
      in if month < 1 \<or> month > 12 then now_month else month)"

definition partner_settlement_rows ::
  "int \<Rightarrow> datetime \<times> datetime \<Rightarrow> insurance_application list \<Rightarrow> insurance_application list" where
  "partner_settlement_rows pg p apps =
     filter (\<lambda>a. partner_group_id a = pg \<and> in_period p a) apps"

text \<open>
  \<open>partner_admin_settlement\<close> for the session of a partner administrator whose group
  \<open>pg\<close> exists. \<open>now_year\<close> and \<open>now_month\<close> are \<open>now.year\<close> and \<open>now.month\<close>. The
  handler's \<open>except\<close> turns an error into a redirect with a page error.
\<close>

definition partner_aggregate ::
  "(int \<rightharpoonup> member) \<Rightarrow> insurance_application list \<Rightarrow> partner_key settlement_page" where
  "partner_aggregate members applications =
     (let settlements = foldl (partner_round members) [] applications
      in \<lparr>settlements = settlements,
          total_count = sum_list (map count settlements),
          total_amount = sum_list (map amount settlements)\<rparr>)"

definition partner_admin_settlement ::
  "int \<Rightarrow> int option \<Rightarrow> int option \<Rightarrow> int \<Rightarrow> int \<Rightarrow> (int \<rightharpoonup> member) \<Rightarrow> insurance_application list
     \<Rightarrow> flash + partner_key settlement_page" where
  "partner_admin_settlement pg year_arg month_arg now_year now_month members apps =
     (case settlement_period (partner_year year_arg now_year) (partner_month month_arg now_month) of
        Inl e \<Rightarrow> Inl (Danger, PageLoadError)
      | Inr p \<Rightarrow> Inr (partner_aggregate members (partner_settlement_rows pg p apps)))"

subsection \<open>The global administrator's settlement overview\<close>

record group_settlement =
  group_key :: int
  group_name :: string
  companies :: "(string option \<times> string option) settlement list"
  group_total_count :: int
  group_total_amount :: int

record overview_page =
  settlements_by_group :: "group_settlement list"
  grand_total_count :: int
  grand_total_amount :: int

fun add_to_group ::
  "int \<Rightarrow> string \<Rightarrow> string option \<times> string option \<Rightarrow> group_settlement list
     \<Rightarrow> group_settlement list" where
  "add_to_group gk gname ck [] =
     [\<lparr>group_key = gk, group_name = gname, companies = add_application 95000 ck [],
       group_total_count = 0 + 1, group_total_amount = 0 + 95000\<rparr>]"
| "add_to_group gk gname ck (g # rest) =
     (if group_key g = gk
      then g\<lparr>companies := add_application 95000 ck (companies g),
              group_total_count := group_total_count g + 1,
              group_total_amount := group_total_amount g + 95000\<rparr> # rest
      else g # add_to_group gk gname ck rest)"

definition overview_round ::
  "(int \<rightharpoonup> partner_group) \<Rightarrow> (int \<rightharpoonup> member) \<Rightarrow> group_settlement list
     \<Rightarrow> insurance_application \<Rightarrow> group_settlement list" where
  "overview_round groups members d app =
     (case groups (partner_group_id app) of
        None \<Rightarrow> d
      | Some g \<Rightarrow>
          (case created_by_member members app of
             None \<Rightarrow> d
           | Some m \<Rightarrow>
               add_to_group (partner_group_id app) (pg_name g)
                 (company_name m, representative m) d))"

text \<open>
  \<open>admin_settlement_overview\<close>. The argument \<open>partner_group_id\<close> narrows the query when
  it is an integer; empty or not an integer, it does not.
\<close>

definition overview_rows ::
  "id_field \<Rightarrow> datetime \<times> datetime \<Rightarrow> insurance_application list \<Rightarrow> insurance_application list" where
  "overview_rows pg_arg p apps =
     (case pg_arg of
        GivenId pg \<Rightarrow> filter (\<lambda>a. partner_group_id a = pg) (filter (in_period p) apps)
      | _ \<Rightarrow> filter (in_period p) apps)"

definition overview_aggregate ::
  "(int \<rightharpoonup> partner_group) \<Rightarrow> (int \<rightharpoonup> member) \<Rightarrow> insurance_application list
     \<Rightarrow> overview_page" where
  "overview_aggregate groups members applications =
     (let by_group = foldl (overview_round groups members) [] applications
      in \<lparr>settlements_by_group = by_group,
          grand_total_count = sum_list (map group_total_count by_group),
          grand_total_amount = sum_list (map group_total_amount by_group)\<rparr>)"

definition admin_settlement_overview ::
  "int \<Rightarrow> int \<Rightarrow> id_field \<Rightarrow> (int \<rightharpoonup> partner_group) \<Rightarrow> (int \<rightharpoonup> member)
     \<Rightarrow> insurance_application list \<Rightarrow> error + overview_page" where
  "admin_settlement_overview year month pg_arg groups members apps =
     (case settlement_period year month of
        Inl e \<Rightarrow> Inl e
      | Inr p \<Rightarrow> Inr (overview_aggregate groups members (overview_rows pg_arg p apps)))"

section \<open>Creating members and partner groups\<close>







section \<open>The gate of the global administrator's screens\<close>





datatype page = LoginPage | DashboardPage | AdminDashboardPage








section \<open>Sample data\<close>

definition sample_app :: insurance_application where
  "sample_app =
     \<lparr>partner_group_id = 1, desired_start_date = 10, start_at = None, end_at = None,
      approved_at = None, insured_code = [], contractor_code = [], car_plate = ''12A3456'',
      vin = [], car_name = [], car_registered_at = None, premium = 9500,
      status = Applied, memo = [], insurance_policy_path = None,
      insurance_policy_url = None, created_by_member_id = Some 7\<rparr>"



definition sample_member :: member where
  "sample_member =
     \<lparr>member_partner_group_id = Some 1, username = ''kim'', password_hash = ''h'',
      company_name = Some ''Kim Motors'', address = None, business_number = Some ''123'',
      corporation_number = None, representative = Some ''Kim'', phone = None, mobile = None,
      email = None, registration_cert_path = None, member_type = Corporate,
      privacy_agreement = False, approval_status = ApprovalApproved, role = ''member''\<rparr>"


definition sample_group :: partner_group where
  "sample_group =
     \<lparr>pg_name = ''Busan'', pg_admin_username = ''busan'', pg_admin_password_hash = ''h'',
      pg_business_number = ''900'', pg_representative = ''Park'', pg_phone = ''051'',
      pg_mobile = [], pg_address = [], pg_bank_name = [], pg_account_number = [],
      pg_registration_cert_path = None, pg_logo_path = None, pg_memo = []\<rparr>"



section \<open>Evaluating the definitions\<close>

lemmas time_units = timedelta_hours_def timedelta_days_def us_per_hour_def us_per_day_def
  midnight_def

section \<open>The recomputation of the status\<close>










subsection \<open>Expiry\<close>

text \<open>
  C2. For every application whose \<open>end_at\<close> is a time \<open>T\<close>, the recomputation at any
  time \<open>now \<ge> T\<close> leaves the status expired, whatever the status, the approval time
  and the other fields were.
\<close>

theorem recompute_status_expired:
  assumes "end_at a = Some T" and "T \<le> now"
  shows "status (recompute_status now a) = Expired"
  using assms by (simp add: recompute_status_def ensure_aware_def Let_def)

theorem recompute_status_expired_witness:
  "end_at (sample_app\<lparr>end_at := Some 50\<rparr>) = Some 50 \<and> (50::int) \<le> 100 \<and>
   status (recompute_status 100 (sample_app\<lparr>end_at := Some 50\<rparr>)) = Expired"
  using recompute_status_expired [of "sample_app\<lparr>end_at := Some 50\<rparr>" 50 100] by simp

subsection \<open>Activation\<close>




subsection \<open>Forward only, and idempotent once the window is set\<close>




section \<open>Approval\<close>



lemma partner_group_id_partner_approve:
  "partner_group_id (partner_approve now a) = partner_group_id a"
  by (simp add: partner_approve_def Let_def split: option.splits)





subsection \<open>The window is fixed at approval\<close>




subsection \<open>Approving twice\<close>




section \<open>Editing and deleting after the approval\<close>





section \<open>Settlement: the aggregation\<close>

subsection \<open>Counting by key\<close>

lemma sum_count_key: "sum_list (map snd (count_key key d)) = sum_list (map snd d) + 1"
  by (induction d) (auto split: prod.splits)

lemma sum_foldl_count_key:
  "sum_list (map snd (foldl (\<lambda>d r. count_key (kf r) d) d rows)) =
     sum_list (map snd d) + int (length rows)"
  by (induction rows arbitrary: d) (simp_all add: sum_count_key)

lemma keys_count_key: "fst ` set (count_key key d) = insert key (fst ` set d)"
proof (induction d)
  case Nil
  show ?case by simp
next
  case (Cons e d)
  obtain k c where e: "e = (k, c)" by (cases e)
  show ?case
    by (cases "k = key") (simp_all add: e Cons.IH insert_commute)
qed

lemma distinct_count_key:
  "distinct (map fst d) \<Longrightarrow> distinct (map fst (count_key key d))"
proof (induction d)
  case Nil
  then show ?case by simp
next
  case (Cons e d)
  obtain k c where e: "e = (k, c)" by (cases e)
  show ?case
  proof (cases "k = key")
    case True
    with Cons e show ?thesis by simp
  next
    case False
    have "k \<notin> fst ` set (count_key key d)"
      using Cons.prems e False by (simp add: keys_count_key)
    with Cons e False show ?thesis by simp
  qed
qed

lemma map_of_count_key:
  "map_of (count_key key d) k =
     (if k = key then Some (case map_of d key of None \<Rightarrow> 1 | Some c \<Rightarrow> c + 1) else map_of d k)"
  by (induction d) (auto split: prod.splits)

lemma map_of_foldl_count_key:
  "map_of (foldl (\<lambda>d r. count_key (kf r) d) d rows) k =
     (if k \<in> kf ` set rows \<or> map_of d k \<noteq> None
      then Some ((case map_of d k of None \<Rightarrow> 0 | Some c \<Rightarrow> c) + int (length (filter (\<lambda>r. kf r = k) rows)))
      else None)"
proof (induction rows arbitrary: d)
  case Nil
  show ?case by (cases "map_of d k") auto
next
  case (Cons r rows)
  show ?case
    by (cases "map_of d k"; cases "map_of d (kf r)")
       (auto simp: Cons.IH map_of_count_key)
qed

lemma distinct_foldl_count_key:
  "distinct (map fst d) \<Longrightarrow> distinct (map fst (foldl (\<lambda>d r. count_key (kf r) d) d rows))"
  by (induction rows arbitrary: d) (simp_all add: distinct_count_key)

lemma count_key_counts:
  assumes "(k, c) \<in> set (foldl (\<lambda>d r. count_key (kf r) d) [] rows)"
  shows "c = int (length (filter (\<lambda>r. kf r = k) rows))"
proof -
  have "distinct (map fst (foldl (\<lambda>d r. count_key (kf r) d) [] rows))"
    by (rule distinct_foldl_count_key) simp
  with assms have "map_of (foldl (\<lambda>d r. count_key (kf r) d) [] rows) k = Some c"
    by simp
  then show ?thesis
    by (simp add: map_of_foldl_count_key split: if_splits)
qed

subsection \<open>Adding an application to its company\<close>

lemma add_application_amount:
  "\<forall>s \<in> set d. amount s = count s * price \<Longrightarrow>
   \<forall>s \<in> set (add_application price key d). amount s = count s * price"
  by (induction d) (auto simp: algebra_simps)

lemma sum_count_add_application:
  "sum_list (map count (add_application price key d)) = sum_list (map count d) + 1"
  by (induction d) auto

lemma sum_amount_add_application:
  "sum_list (map amount (add_application price key d)) = sum_list (map amount d) + price"
  by (induction d) auto

lemma companies_add_application:
  "company ` set (add_application price key d) = insert key (company ` set d)"
proof (induction d)
  case Nil
  show ?case by simp
next
  case (Cons s d)
  show ?case
    by (cases "company s = key") (simp_all add: Cons.IH insert_commute)
qed

lemma distinct_add_application:
  "distinct (map company d) \<Longrightarrow> distinct (map company (add_application price key d))"
proof (induction d)
  case Nil
  then show ?case by simp
next
  case (Cons s d)
  show ?case
  proof (cases "company s = key")
    case True
    with Cons show ?thesis by simp
  next
    case False
    have "company s \<notin> company ` set (add_application price key d)"
      using Cons.prems False by (simp add: companies_add_application)
    with Cons False show ?thesis by simp
  qed
qed

lemma count_of_add_application:
  "map_of (map (\<lambda>s. (company s, count s)) (add_application price key d)) k =
     (if k = key
      then Some ((case map_of (map (\<lambda>s. (company s, count s)) d) key of
                    None \<Rightarrow> 0 | Some c \<Rightarrow> c) + 1)
      else map_of (map (\<lambda>s. (company s, count s)) d) k)"
  by (induction d) auto

text \<open>One round that skips a row without key.\<close>

lemma amount_foldl:
  "\<forall>s \<in> set d. amount s = count s * price \<Longrightarrow>
   \<forall>s \<in> set (foldl (\<lambda>d r. case kf r of None \<Rightarrow> d
                                    | Some key \<Rightarrow> add_application price key d) d rows).
      amount s = count s * price"
proof (induction rows arbitrary: d)
  case Nil
  then show ?case by simp
next
  case (Cons r rows)
  show ?case
  proof (cases "kf r")
    case None
    with Cons show ?thesis by simp
  next
    case (Some key)
    have "\<forall>s \<in> set (add_application price key d). amount s = count s * price"
      using Cons.prems by (rule add_application_amount)
    from Cons.IH [OF this] Some show ?thesis by simp
  qed
qed

lemma distinct_foldl:
  "distinct (map company d) \<Longrightarrow>
   distinct (map company (foldl (\<lambda>d r. case kf r of None \<Rightarrow> d
                                    | Some key \<Rightarrow> add_application price key d) d rows))"
proof (induction rows arbitrary: d)
  case Nil
  then show ?case by simp
next
  case (Cons r rows)
  show ?case
  proof (cases "kf r")
    case None
    with Cons show ?thesis by simp
  next
    case (Some key)
    have "distinct (map company (add_application price key d))"
      using Cons.prems by (rule distinct_add_application)
    from Cons.IH [OF this] Some show ?thesis by simp
  qed
qed

lemma sum_count_foldl:
  "sum_list (map count (foldl (\<lambda>d r. case kf r of None \<Rightarrow> d
                                    | Some key \<Rightarrow> add_application price key d) d rows)) =
     sum_list (map count d) + int (length (filter (\<lambda>r. kf r \<noteq> None) rows))"
proof (induction rows arbitrary: d)
  case Nil
  show ?case by simp
next
  case (Cons r rows)
  show ?case
    by (cases "kf r") (simp_all add: Cons.IH sum_count_add_application)
qed

lemma count_of_foldl:
  "map_of (map (\<lambda>s. (company s, count s))
       (foldl (\<lambda>d r. case kf r of None \<Rightarrow> d
                      | Some key \<Rightarrow> add_application price key d) d rows)) k =
     (if Some k \<in> kf ` set rows \<or> map_of (map (\<lambda>s. (company s, count s)) d) k \<noteq> None
      then Some ((case map_of (map (\<lambda>s. (company s, count s)) d) k of None \<Rightarrow> 0 | Some c \<Rightarrow> c)
                 + int (length (filter (\<lambda>r. kf r = Some k) rows)))
      else None)"
proof (induction rows arbitrary: d)
  case Nil
  show ?case by (cases "map_of (map (\<lambda>s. (company s, count s)) d) k") auto
next
  case (Cons r rows)
  show ?case
  proof (cases "kf r")
    case None
    then show ?thesis by (simp add: Cons.IH)
  next
    case (Some key)
    show ?thesis
      by (cases "map_of (map (\<lambda>s. (company s, count s)) d) k";
          cases "map_of (map (\<lambda>s. (company s, count s)) d) key")
         (auto simp: Some Cons.IH count_of_add_application)
  qed
qed

lemma add_application_counts:
  assumes "s \<in> set (foldl (\<lambda>d r. case kf r of None \<Rightarrow> d
                                    | Some key \<Rightarrow> add_application price key d) [] rows)"
  shows "count s = int (length (filter (\<lambda>r. kf r = Some (company s)) rows))"
proof -
  let ?d = "foldl (\<lambda>d r. case kf r of None \<Rightarrow> d
                                    | Some key \<Rightarrow> add_application price key d) [] rows"
  have "distinct (map company ?d)"
    by (rule distinct_foldl) simp
  then have "distinct (map fst (map (\<lambda>s. (company s, count s)) ?d))"
    by (simp add: comp_def)
  moreover have "(company s, count s) \<in> set (map (\<lambda>s. (company s, count s)) ?d)"
    using assms by auto
  ultimately have "map_of (map (\<lambda>s. (company s, count s)) ?d) (company s) = Some (count s)"
    by (rule map_of_is_SomeI)
  then show ?thesis
    by (simp add: count_of_foldl split: if_splits)
qed


lemma amounts_sum:
  "\<forall>s \<in> set d. amount s = count s * price \<Longrightarrow>
   sum_list (map amount d) = sum_list (map count d) * price"
  by (induction d) (simp_all add: algebra_simps)

subsection \<open>add_to_group\<close>

lemma add_to_group_invariant:
  assumes "\<forall>g \<in> set d. group_total_amount g = group_total_count g * 95000 \<and>
                        (\<forall>s \<in> set (companies g). amount s = count s * 95000)"
  shows "\<forall>g \<in> set (add_to_group gk gname ck d).
           group_total_amount g = group_total_count g * 95000 \<and>
           (\<forall>s \<in> set (companies g). amount s = count s * 95000)"
  using assms
proof (induction d)
  case Nil
  show ?case by simp
next
  case (Cons g d)
  have inv: "\<forall>s \<in> set (add_application 95000 ck (companies g)). amount s = count s * 95000"
    using Cons.prems by (intro add_application_amount) simp
  show ?case
  proof (cases "group_key g = gk")
    case True
    with Cons.prems inv show ?thesis by simp
  next
    case False
    with Cons show ?thesis by simp
  qed
qed

lemma sum_add_to_group:
  "sum_list (map group_total_count (add_to_group gk gname ck d)) =
     sum_list (map group_total_count d) + 1"
  by (induction d) auto

lemma group_keys_add_to_group:
  "group_key ` set (add_to_group gk gname ck d) = insert gk (group_key ` set d)"
proof (induction d)
  case Nil
  show ?case by simp
next
  case (Cons g d)
  show ?case
    by (cases "group_key g = gk") (simp_all add: Cons.IH insert_commute)
qed

lemma distinct_add_to_group:
  "distinct (map group_key d) \<Longrightarrow> distinct (map group_key (add_to_group gk gname ck d))"
proof (induction d)
  case Nil
  then show ?case by simp
next
  case (Cons g d)
  show ?case
  proof (cases "group_key g = gk")
    case True
    with Cons show ?thesis by simp
  next
    case False
    have "group_key g \<notin> group_key ` set (add_to_group gk gname ck d)"
      using Cons.prems False by (simp add: group_keys_add_to_group)
    with Cons False show ?thesis by simp
  qed
qed

lemma count_of_add_to_group:
  "map_of (map (\<lambda>g. (group_key g, group_total_count g)) (add_to_group gk gname ck d)) k =
     (if k = gk
      then Some ((case map_of (map (\<lambda>g. (group_key g, group_total_count g)) d) gk of
                    None \<Rightarrow> 0 | Some c \<Rightarrow> c) + 1)
      else map_of (map (\<lambda>g. (group_key g, group_total_count g)) d) k)"
  by (induction d) auto

text \<open>The rows one round of the overview counts.\<close>

lemma overview_round_cases:
  "overview_round groups members d app =
     (if groups (partner_group_id app) \<noteq> None \<and> created_by_member members app \<noteq> None
      then add_to_group (partner_group_id app) (pg_name (the (groups (partner_group_id app))))
             (company_name (the (created_by_member members app)),
              representative (the (created_by_member members app))) d
      else d)"
  by (auto simp: overview_round_def split: option.splits)

lemma overview_invariant:
  assumes "\<forall>g \<in> set d. group_total_amount g = group_total_count g * 95000 \<and>
                        (\<forall>s \<in> set (companies g). amount s = count s * 95000)"
  shows "\<forall>g \<in> set (foldl (overview_round groups members) d rows).
           group_total_amount g = group_total_count g * 95000 \<and>
           (\<forall>s \<in> set (companies g). amount s = count s * 95000)"
  using assms
proof (induction rows arbitrary: d)
  case Nil
  then show ?case by simp
next
  case (Cons r rows)
  have "\<forall>g \<in> set (overview_round groups members d r).
           group_total_amount g = group_total_count g * 95000 \<and>
           (\<forall>s \<in> set (companies g). amount s = count s * 95000)"
    unfolding overview_round_cases [of groups members d r]
    using Cons.prems add_to_group_invariant [OF Cons.prems] by (simp del: add_to_group.simps)
  from Cons.IH [OF this] show ?case by simp
qed

lemma overview_sum:
  "sum_list (map group_total_count (foldl (overview_round groups members) d rows)) =
     sum_list (map group_total_count d) +
     int (length (filter (\<lambda>r. groups (partner_group_id r) \<noteq> None \<and>
                              created_by_member members r \<noteq> None) rows))"
proof (induction rows arbitrary: d)
  case Nil
  show ?case by simp
next
  case (Cons r rows)
  show ?case
    by (simp add: Cons.IH overview_round_cases [of groups members d r] sum_add_to_group
          del: add_to_group.simps)
qed

lemma overview_distinct:
  "distinct (map group_key d) \<Longrightarrow>
   distinct (map group_key (foldl (overview_round groups members) d rows))"
proof (induction rows arbitrary: d)
  case Nil
  then show ?case by simp
next
  case (Cons r rows)
  have "distinct (map group_key (overview_round groups members d r))"
    using Cons.prems by (simp add: overview_round_cases [of groups members d r] distinct_add_to_group)
  from Cons.IH [OF this] show ?case by simp
qed

lemma overview_count_of:
  "map_of (map (\<lambda>g. (group_key g, group_total_count g))
       (foldl (overview_round groups members) d rows)) k =
     (if (\<exists>r \<in> set rows. partner_group_id r = k \<and> groups (partner_group_id r) \<noteq> None \<and>
                          created_by_member members r \<noteq> None) \<or>
         map_of (map (\<lambda>g. (group_key g, group_total_count g)) d) k \<noteq> None
      then Some ((case map_of (map (\<lambda>g. (group_key g, group_total_count g)) d) k of
                    None \<Rightarrow> 0 | Some c \<Rightarrow> c)
                 + int (length (filter (\<lambda>r. partner_group_id r = k \<and>
                                            groups (partner_group_id r) \<noteq> None \<and>
                                            created_by_member members r \<noteq> None) rows)))
      else None)"
proof (induction rows arbitrary: d)
  case Nil
  show ?case by (cases "map_of (map (\<lambda>g. (group_key g, group_total_count g)) d) k") auto
next
  case (Cons r rows)
  show ?case
  proof (cases "groups (partner_group_id r) \<noteq> None \<and> created_by_member members r \<noteq> None")
    case False
    then have "overview_round groups members d r = d"
      by (auto simp: overview_round_cases [of groups members d r])
    with False show ?thesis by (auto simp: Cons.IH)
  next
    case True
    then have step: "overview_round groups members d r =
        add_to_group (partner_group_id r) (pg_name (the (groups (partner_group_id r))))
          (company_name (the (created_by_member members r)),
           representative (the (created_by_member members r))) d"
      by (simp add: overview_round_cases [of groups members d r])
    show ?thesis
      by (cases "map_of (map (\<lambda>g. (group_key g, group_total_count g)) d) k";
          cases "map_of (map (\<lambda>g. (group_key g, group_total_count g)) d) (partner_group_id r)")
         (use True in \<open>auto simp: step Cons.IH count_of_add_to_group
               simp del: add_to_group.simps\<close>)
  qed
qed

lemma overview_group_counts:
  assumes "g \<in> set (foldl (overview_round groups members) [] rows)"
  shows "group_total_count g =
           int (length (filter (\<lambda>r. partner_group_id r = group_key g \<and>
                                      groups (partner_group_id r) \<noteq> None \<and>
                                      created_by_member members r \<noteq> None) rows))"
proof -
  let ?d = "foldl (overview_round groups members) [] rows"
  have "distinct (map group_key ?d)"
    by (rule overview_distinct) simp
  then have "distinct (map fst (map (\<lambda>g. (group_key g, group_total_count g)) ?d))"
    by (simp add: comp_def)
  moreover have "(group_key g, group_total_count g) \<in>
                   set (map (\<lambda>g. (group_key g, group_total_count g)) ?d)"
    using assms by auto
  ultimately have "map_of (map (\<lambda>g. (group_key g, group_total_count g)) ?d) (group_key g) =
                     Some (group_total_count g)"
    by (rule map_of_is_SomeI)
  then show ?thesis
    by (simp add: overview_count_of split: if_splits)
qed


section \<open>Settlement: the unit price\<close>

lemma settlements_admin_aggregate:
  "settlements (admin_aggregate members rows) =
     map (\<lambda>(key, c). \<lparr>company = key, count = c, amount = c * 9500\<rparr>)
       (foldl (\<lambda>d r. count_key (admin_company_key members r) d) [] rows)"
  by (simp add: admin_aggregate_def Let_def)

lemma admin_aggregate_entries:
  assumes "s \<in> set (settlements (admin_aggregate members rows))"
  shows "count s = int (length (filter (\<lambda>r. admin_company_key members r = company s) rows)) \<and>
         amount s = count s * 9500"
proof -
  from assms obtain k c
    where kc: "(k, c) \<in> set (foldl (\<lambda>d r. count_key (admin_company_key members r) d) [] rows)"
      and s: "s = \<lparr>company = k, count = c, amount = c * 9500\<rparr>"
    by (auto simp: settlements_admin_aggregate)
  from kc have "c = int (length (filter (\<lambda>r. admin_company_key members r = k) rows))"
    by (rule count_key_counts)
  with s show ?thesis by simp
qed

lemma admin_aggregate_total_count:
  "total_count (admin_aggregate members rows) = int (length rows)"
proof -
  have "map count (settlements (admin_aggregate members rows)) =
          map snd (foldl (\<lambda>d r. count_key (admin_company_key members r) d) [] rows)"
    by (simp add: settlements_admin_aggregate comp_def case_prod_beta)
  then have "sum_list (map count (settlements (admin_aggregate members rows))) = int (length rows)"
    by (simp add: sum_foldl_count_key)
  then show ?thesis by (simp add: admin_aggregate_def Let_def)
qed

lemma admin_aggregate_total_amount:
  "total_amount (admin_aggregate members rows) = total_count (admin_aggregate members rows) * 9500"
proof -
  have "\<forall>s \<in> set (settlements (admin_aggregate members rows)). amount s = count s * 9500"
    using admin_aggregate_entries by blast
  then have "sum_list (map amount (settlements (admin_aggregate members rows))) =
               sum_list (map count (settlements (admin_aggregate members rows))) * 9500"
    by (rule amounts_sum)
  then show ?thesis by (simp add: admin_aggregate_def Let_def)
qed

lemma partner_round_fold:
  "foldl (partner_round members) d rows =
     foldl (\<lambda>d r. case partner_company_key members r of None \<Rightarrow> d
                  | Some key \<Rightarrow> add_application 9500 key d) d rows"
  by (induction rows arbitrary: d) (simp_all add: partner_round_def)

lemma settlements_partner_aggregate:
  "settlements (partner_aggregate members rows) =
     foldl (\<lambda>d r. case partner_company_key members r of None \<Rightarrow> d
                  | Some key \<Rightarrow> add_application 9500 key d) [] rows"
  by (simp add: partner_aggregate_def Let_def partner_round_fold)

lemma partner_aggregate_entries:
  assumes "s \<in> set (settlements (partner_aggregate members rows))"
  shows "count s =
           int (length (filter (\<lambda>r. partner_company_key members r = Some (company s)) rows)) \<and>
         amount s = count s * 9500"
proof -
  have "count s = int (length (filter (\<lambda>r. partner_company_key members r = Some (company s)) rows))"
    using assms unfolding settlements_partner_aggregate by (rule add_application_counts)
  moreover have "\<forall>s \<in> set (settlements (partner_aggregate members rows)). amount s = count s * 9500"
    unfolding settlements_partner_aggregate by (rule amount_foldl) simp
  ultimately show ?thesis using assms by blast
qed

lemma partner_aggregate_total_count:
  "total_count (partner_aggregate members rows) =
     int (length (filter (\<lambda>r. partner_company_key members r \<noteq> None) rows))"
proof -
  have "sum_list (map count (settlements (partner_aggregate members rows))) =
          int (length (filter (\<lambda>r. partner_company_key members r \<noteq> None) rows))"
    unfolding settlements_partner_aggregate by (simp add: sum_count_foldl)
  then show ?thesis by (simp add: partner_aggregate_def Let_def)
qed

lemma partner_aggregate_total_amount:
  "total_amount (partner_aggregate members rows) =
     total_count (partner_aggregate members rows) * 9500"
proof -
  have "\<forall>s \<in> set (settlements (partner_aggregate members rows)). amount s = count s * 9500"
    using partner_aggregate_entries by blast
  then have "sum_list (map amount (settlements (partner_aggregate members rows))) =
               sum_list (map count (settlements (partner_aggregate members rows))) * 9500"
    by (rule amounts_sum)
  then show ?thesis by (simp add: partner_aggregate_def Let_def)
qed

lemma overview_aggregate_groups:
  assumes "g \<in> set (settlements_by_group (overview_aggregate groups members rows))"
  shows "group_total_count g =
           int (length (filter (\<lambda>r. partner_group_id r = group_key g \<and>
                                      groups (partner_group_id r) \<noteq> None \<and>
                                      created_by_member members r \<noteq> None) rows)) \<and>
         group_total_amount g = group_total_count g * 95000 \<and>
         (\<forall>s \<in> set (companies g). amount s = count s * 95000)"
proof -
  from assms have g: "g \<in> set (foldl (overview_round groups members) [] rows)"
    by (simp add: overview_aggregate_def Let_def)
  have "\<forall>g \<in> set (foldl (overview_round groups members) [] rows).
          group_total_amount g = group_total_count g * 95000 \<and>
          (\<forall>s \<in> set (companies g). amount s = count s * 95000)"
    by (rule overview_invariant) simp
  with g overview_group_counts [OF g] show ?thesis by blast
qed

lemma overview_aggregate_total_count:
  "grand_total_count (overview_aggregate groups members rows) =
     int (length (filter (\<lambda>r. groups (partner_group_id r) \<noteq> None \<and>
                              created_by_member members r \<noteq> None) rows))"
  by (simp add: overview_aggregate_def Let_def overview_sum)

lemma group_amounts_sum:
  "\<forall>g \<in> set d. group_total_amount g = group_total_count g * price \<Longrightarrow>
   sum_list (map group_total_amount d) = sum_list (map group_total_count d) * price"
  by (induction d) (simp_all add: algebra_simps)

lemma overview_aggregate_total_amount:
  "grand_total_amount (overview_aggregate groups members rows) =
     grand_total_count (overview_aggregate groups members rows) * 95000"
proof -
  have "\<forall>g \<in> set (foldl (overview_round groups members) [] rows).
          group_total_amount g = group_total_count g * 95000 \<and>
          (\<forall>s \<in> set (companies g). amount s = count s * 95000)"
    by (rule overview_invariant) simp
  then have "\<forall>g \<in> set (foldl (overview_round groups members) [] rows).
          group_total_amount g = group_total_count g * 95000"
    by blast
  then have "sum_list (map group_total_amount (foldl (overview_round groups members) [] rows)) =
          sum_list (map group_total_count (foldl (overview_round groups members) [] rows)) * 95000"
    by (rule group_amounts_sum)
  then show ?thesis by (simp add: overview_aggregate_def Let_def)
qed

text \<open>
  C7, as the code has it. In every settlement aggregation the count of a group is the
  number of applications of the queried rows that fall in the group, and its amount is
  that count times a fixed unit price; the totals obey the same product. The unit price
  is 9,500 in the global administrator's monthly settlement and in the partner view, and
  95,000 in the global administrator's settlement overview, for a company as for a
  partner group.
\<close>

theorem settlement_amounts:
  "(\<forall>s \<in> set (settlements (admin_aggregate members rows)).
      count s = int (length (filter (\<lambda>r. admin_company_key members r = company s) rows)) \<and>
      amount s = count s * 9500) \<and>
   total_amount (admin_aggregate members rows) =
     total_count (admin_aggregate members rows) * 9500 \<and>
   (\<forall>s \<in> set (settlements (partner_aggregate members rows)).
      count s = int (length (filter (\<lambda>r. partner_company_key members r = Some (company s)) rows)) \<and>
      amount s = count s * 9500) \<and>
   total_amount (partner_aggregate members rows) =
     total_count (partner_aggregate members rows) * 9500 \<and>
   (\<forall>g \<in> set (settlements_by_group (overview_aggregate groups members rows)).
      group_total_count g =
        int (length (filter (\<lambda>r. partner_group_id r = group_key g \<and>
                                   groups (partner_group_id r) \<noteq> None \<and>
                                   created_by_member members r \<noteq> None) rows)) \<and>
      group_total_amount g = group_total_count g * 95000 \<and>
      (\<forall>s \<in> set (companies g). amount s = count s * 95000)) \<and>
   grand_total_amount (overview_aggregate groups members rows) =
     grand_total_count (overview_aggregate groups members rows) * 95000"
  using admin_aggregate_entries [of _ members rows] admin_aggregate_total_amount [of members rows]
    partner_aggregate_entries [of _ members rows] partner_aggregate_total_amount [of members rows]
    overview_aggregate_groups [of _ groups members rows]
    overview_aggregate_total_amount [of groups members rows]
  by blast

lemmas sample_aggregation =
  admin_aggregate_def partner_aggregate_def overview_aggregate_def partner_round_def
  overview_round_def admin_company_key_def partner_company_key_def created_by_member_def
  or_empty_def sample_app_def sample_member_def sample_group_def Let_def

theorem settlement_amounts_witness:
  "\<lparr>company = (Some ''Kim Motors'', Some ''Kim'', Some ''123''), count = 2, amount = 19000\<rparr>
     \<in> set (settlements (admin_aggregate [7 \<mapsto> sample_member] [sample_app, sample_app])) \<and>
   \<lparr>company = (''Kim Motors'', ''Kim'', ''123''), count = 2, amount = 19000\<rparr>
     \<in> set (settlements (partner_aggregate [7 \<mapsto> sample_member] [sample_app, sample_app])) \<and>
   \<lparr>group_key = 1, group_name = ''Busan'',
     companies = [\<lparr>company = (Some ''Kim Motors'', Some ''Kim''), count = 2, amount = 190000\<rparr>],
     group_total_count = 2, group_total_amount = 190000\<rparr>
     \<in> set (settlements_by_group
              (overview_aggregate [1 \<mapsto> sample_group] [7 \<mapsto> sample_member]
                 [sample_app, sample_app])) \<and>
   total_amount (admin_aggregate [7 \<mapsto> sample_member] [sample_app, sample_app]) = 2 * 9500 \<and>
   total_amount (partner_aggregate [7 \<mapsto> sample_member] [sample_app, sample_app]) = 2 * 9500 \<and>
   grand_total_amount
     (overview_aggregate [1 \<mapsto> sample_group] [7 \<mapsto> sample_member] [sample_app, sample_app]) =
     2 * 95000"
  using settlement_amounts
          [of "[7 \<mapsto> sample_member]" "[sample_app, sample_app]" "[1 \<mapsto> sample_group]"]
  by (simp add: sample_aggregation)

text \<open>
  The global administrator's monthly settlement does not multiply by 95,000: one
  application that starts on 15 March 2024 (day 738960) gives an amount of 9,500 for
  March 2024.
\<close>

theorem admin_settlement_unit_price:
  "admin_settlement 2024 3 [7 \<mapsto> sample_member]
     [sample_app\<lparr>start_at := Some (midnight 738960)\<rparr>] =
   Inr \<lparr>settlements =
          [\<lparr>company = (Some ''Kim Motors'', Some ''Kim'', Some ''123''), count = 1,
            amount = 9500\<rparr>],
        total_count = 1, total_amount = 9500\<rparr> \<and>
   (9500 :: int) \<noteq> 1 * 95000"
  by (simp add: admin_settlement_def settlement_period_def datetime_ymd_def days_in_month_def
        ymd2ord_def days_before_year_def days_before_month_def is_leap_def in_period_def
        time_units sample_aggregation)

section \<open>Settlement: the calendar\<close>

lemma month_cases:
  "1 \<le> month \<Longrightarrow> month \<le> 12 \<Longrightarrow>
   month = 1 \<or> month = 2 \<or> month = 3 \<or> month = 4 \<or> month = 5 \<or> month = 6 \<or>
   month = 7 \<or> month = 8 \<or> month = 9 \<or> month = 10 \<or> month = 11 \<or> month = (12::int)"
  by arith

lemma days_in_month_pos: "1 \<le> month \<Longrightarrow> month \<le> 12 \<Longrightarrow> 1 \<le> days_in_month year month"
proof -
  assume "1 \<le> month" "month \<le> 12"
  then consider "month = 1" | "month = 2" | "month = 3" | "month = 4" | "month = 5" | "month = 6"
    | "month = 7" | "month = 8" | "month = 9" | "month = 10" | "month = 11" | "month = 12"
    using month_cases [of month] by blast
  then show ?thesis
    by cases (simp_all add: days_in_month_def)
qed

lemma ymd2ord_next_month:
  assumes "1 \<le> month" and "month < 12"
  shows "ymd2ord year month 1 < ymd2ord year (month + 1) 1"
proof -
  from assms consider "month = 1" | "month = 2" | "month = 3" | "month = 4" | "month = 5"
    | "month = 6" | "month = 7" | "month = 8" | "month = 9" | "month = 10" | "month = 11"
    using month_cases [of month] by fastforce
  then show ?thesis
    by cases (simp_all add: ymd2ord_def days_before_month_def)
qed

lemma days_before_year_step:
  "days_before_year year + 364 \<le> days_before_year (year + 1)"
proof -
  have a: "(year - 1) div 4 \<le> year div 4"
    by (rule zdiv_mono1) simp_all
  have b: "year div 100 \<le> (year - 1) div 100 + 1"
    by linarith
  have c: "(year - 1) div 400 \<le> year div 400"
    by (rule zdiv_mono1) simp_all
  show ?thesis
    using a b c by (simp add: days_before_year_def Let_def)
qed

lemma ymd2ord_next_year: "ymd2ord year 12 1 < ymd2ord (year + 1) 1 1"
  using days_before_year_step [of year]
  by (simp add: ymd2ord_def days_before_month_def)

lemma datetime_ymd_first:
  "datetime_ymd year month 1 =
     (if 1 \<le> year \<and> year \<le> 9999 \<and> 1 \<le> month \<and> month \<le> 12
      then Inr (midnight (ymd2ord year month 1)) else Inl ValueError)"
  using days_in_month_pos [of month year] by (simp add: datetime_ymd_def)

lemma settlement_period_Inr:
  "settlement_period year month = Inr p \<longleftrightarrow>
     1 \<le> year \<and> (if month = 12 then year + 1 else year) \<le> 9999 \<and> 1 \<le> month \<and> month \<le> 12 \<and>
     p = (midnight (ymd2ord year month 1),
          midnight (if month = 12 then ymd2ord (year + 1) 1 1 else ymd2ord year (month + 1) 1))"
proof (cases "month = 12")
  case True
  then show ?thesis
    by (auto simp: settlement_period_def datetime_ymd_first)
next
  case False
  then show ?thesis
    by (auto simp: settlement_period_def datetime_ymd_first)
qed

lemma midnight_mono: "d < d' \<Longrightarrow> midnight d < midnight d'"
  by (simp add: midnight_def us_per_day_def us_per_hour_def)

lemma settlement_period_nonempty:
  assumes "settlement_period year month = Inr p"
  shows "fst p < snd p"
proof -
  from assms have m: "1 \<le> month" "month \<le> 12"
    and p: "p = (midnight (ymd2ord year month 1),
          midnight (if month = 12 then ymd2ord (year + 1) 1 1 else ymd2ord year (month + 1) 1))"
    by (simp_all add: settlement_period_Inr)
  show ?thesis
  proof (cases "month = 12")
    case True
    then show ?thesis using p ymd2ord_next_year [of year] by (simp add: midnight_mono)
  next
    case False
    with m have "month < 12" by simp
    from ymd2ord_next_month [OF m(1) this, of year] False p show ?thesis
      by (simp add: midnight_mono)
  qed
qed


section \<open>Settlement: the month\<close>

lemma partner_year_in_range: "2000 \<le> year \<Longrightarrow> year \<le> 2100 \<Longrightarrow> partner_year (Some year) now_year = year"
  by (simp add: partner_year_def)

lemma partner_month_in_range:
  "1 \<le> month \<Longrightarrow> month \<le> 12 \<Longrightarrow> partner_month (Some month) now_month = month"
  by (simp add: partner_month_def)

lemma partner_company_key_None:
  "partner_company_key members a \<noteq> None \<longleftrightarrow> created_by_member members a \<noteq> None"
  by (simp add: partner_company_key_def split: option.splits)

lemma admin_settlement_total:
  assumes "settlement_period year month = Inr p"
  shows "\<exists>page. admin_settlement year month members apps = Inr page \<and>
           total_count page = int (length (filter (in_period p) apps))"
  using assms by (simp add: admin_settlement_def admin_aggregate_total_count)

lemma partner_admin_settlement_total:
  assumes "settlement_period year month = Inr p" and "2000 \<le> year" and "year \<le> 2100"
  shows "\<exists>page. partner_admin_settlement pg (Some year) (Some month) now_year now_month
                   members apps = Inr page \<and>
           total_count page =
             int (length (filter (\<lambda>a. partner_group_id a = pg \<and> in_period p a \<and>
                                       created_by_member members a \<noteq> None) apps))"
proof -
  from assms(1) have m: "1 \<le> month" "month \<le> 12"
    by (simp_all add: settlement_period_Inr)
  have "filter (\<lambda>r. partner_company_key members r \<noteq> None) (partner_settlement_rows pg p apps) =
          filter (\<lambda>a. partner_group_id a = pg \<and> in_period p a \<and>
                      created_by_member members a \<noteq> None) apps"
    unfolding partner_settlement_rows_def filter_filter
    by (rule filter_cong) (auto simp: partner_company_key_def split: option.splits)
  then show ?thesis
    using assms
    by (simp add: partner_admin_settlement_def partner_year_in_range
          partner_month_in_range [OF m] partner_aggregate_total_count)
qed

lemma admin_settlement_overview_total:
  assumes "settlement_period year month = Inr p"
  shows "\<exists>page. admin_settlement_overview year month pg_arg groups members apps = Inr page \<and>
           grand_total_count page =
             int (length (filter (\<lambda>a. in_period p a \<and>
                                       (case pg_arg of GivenId g \<Rightarrow> partner_group_id a = g
                                                    | _ \<Rightarrow> True) \<and>
                                       groups (partner_group_id a) \<noteq> None \<and>
                                       created_by_member members a \<noteq> None) apps))"
  using assms
  by (cases pg_arg)
     (auto simp: admin_settlement_overview_def overview_aggregate_total_count
        overview_rows_def intro!: arg_cong [where f = length] filter_cong)

lemma next_period_disjoint:
  assumes "settlement_period year month = Inr p"
    and "settlement_period (if month = 12 then year + 1 else year)
           (if month = 12 then 1 else month + 1) = Inr p'"
  shows "fst p' = snd p \<and> (in_period p' a \<longrightarrow> \<not> in_period p a)"
proof -
  from assms(1) have p: "snd p =
      midnight (if month = 12 then ymd2ord (year + 1) 1 1 else ymd2ord year (month + 1) 1)"
    by (simp add: settlement_period_Inr)
  from assms(2) have p': "fst p' =
      midnight (ymd2ord (if month = 12 then year + 1 else year)
                  (if month = 12 then 1 else month + 1) 1)"
    by (simp add: settlement_period_Inr)
  from p p' have eq: "fst p' = snd p" by (simp split: if_splits)
  then show ?thesis
    by (auto simp: in_period_def split: option.splits)
qed

text \<open>
  C6, as the code has it. Let \<open>(year, month)\<close> be a month the handlers accept, and \<open>p\<close>
  its period: from the midnight of the first day of the month to the midnight of the
  first day of the next month, which is later.
  \<^item> The global administrator's monthly settlement counts exactly the applications
    whose \<open>start_at\<close> is set and lies in \<open>p\<close>, the upper bound excluded.
  \<^item> The partner view (for a year from 2000 to 2100) counts exactly those of them that
    belong to the partner group and have a creating member; the overview exactly those
    of them that pass its partner group filter and have a partner group and a creating
    member.
  \<^item> The next month's period begins where \<open>p\<close> ends, so an application whose
    \<open>start_at\<close> lies in the next month is outside \<open>p\<close>, whenever it was approved, and
    inside the next month's period.
\<close>

theorem settlement_month_window:
  assumes "settlement_period year month = Inr p"
  shows "(\<exists>page. admin_settlement year month members apps = Inr page \<and>
            total_count page = int (length (filter (in_period p) apps))) \<and>
         (2000 \<le> year \<and> year \<le> 2100 \<longrightarrow>
            (\<exists>page. partner_admin_settlement pg (Some year) (Some month) now_year now_month
                      members apps = Inr page \<and>
               total_count page =
                 int (length (filter (\<lambda>a. partner_group_id a = pg \<and> in_period p a \<and>
                                           created_by_member members a \<noteq> None) apps)))) \<and>
         (\<exists>page. admin_settlement_overview year month pg_arg groups members apps = Inr page \<and>
            grand_total_count page =
              int (length (filter (\<lambda>a. in_period p a \<and>
                                        (case pg_arg of GivenId g \<Rightarrow> partner_group_id a = g
                                                     | _ \<Rightarrow> True) \<and>
                                        groups (partner_group_id a) \<noteq> None \<and>
                                        created_by_member members a \<noteq> None) apps))) \<and>
         p = (midnight (ymd2ord year month 1),
              midnight (if month = 12 then ymd2ord (year + 1) 1 1
                        else ymd2ord year (month + 1) 1)) \<and>
         fst p < snd p \<and>
         (in_period p a \<longleftrightarrow> (\<exists>t. start_at a = Some t \<and> fst p \<le> t \<and> t < snd p)) \<and>
         (settlement_period (if month = 12 then year + 1 else year)
            (if month = 12 then 1 else month + 1) = Inr p' \<longrightarrow>
            fst p' = snd p \<and> (in_period p' a \<longrightarrow> \<not> in_period p a))"
proof -
  have 4: "p = (midnight (ymd2ord year month 1),
              midnight (if month = 12 then ymd2ord (year + 1) 1 1
                        else ymd2ord year (month + 1) 1))"
    using assms by (simp add: settlement_period_Inr)
  have 6: "in_period p a \<longleftrightarrow> (\<exists>t. start_at a = Some t \<and> fst p \<le> t \<and> t < snd p)"
    by (simp add: in_period_def split: option.splits)
  show ?thesis
    using admin_settlement_total [OF assms, of members apps]
      partner_admin_settlement_total [OF assms, of pg now_year now_month members apps]
      admin_settlement_overview_total [OF assms, of pg_arg groups members apps]
      4 settlement_period_nonempty [OF assms] 6
      next_period_disjoint [OF assms, of p' a]
    by blast
qed

lemmas sample_calendar =
  settlement_period_def datetime_ymd_def days_in_month_def ymd2ord_def days_before_year_def
  days_before_month_def is_leap_def in_period_def partner_year_def partner_month_def
  partner_settlement_rows_def overview_rows_def

theorem settlement_month_window_witness:
  "settlement_period 2024 3 = Inr (midnight 738946, midnight 738977) \<and>
   settlement_period 2024 4 = Inr (midnight 738977, midnight 739007) \<and>
   admin_settlement 2024 3 [7 \<mapsto> sample_member]
     [sample_app\<lparr>start_at := Some (midnight 738960)\<rparr>,
      sample_app\<lparr>start_at := Some (midnight 738977)\<rparr>] =
   Inr \<lparr>settlements =
          [\<lparr>company = (Some ''Kim Motors'', Some ''Kim'', Some ''123''), count = 1,
            amount = 9500\<rparr>],
        total_count = 1, total_amount = 9500\<rparr> \<and>
   in_period (midnight 738977, midnight 739007) (sample_app\<lparr>start_at := Some (midnight 738977)\<rparr>) \<and>
   \<not> in_period (midnight 738946, midnight 738977) (sample_app\<lparr>start_at := Some (midnight 738977)\<rparr>)"
  using settlement_month_window
          [of 2024 3 "(midnight 738946, midnight 738977)" "[7 \<mapsto> sample_member]"
              "[sample_app\<lparr>start_at := Some (midnight 738960)\<rparr>,
                sample_app\<lparr>start_at := Some (midnight 738977)\<rparr>]"
              1 2024 3 NoId "[1 \<mapsto> sample_group]"
              "sample_app\<lparr>start_at := Some (midnight 738977)\<rparr>"
              "(midnight 738977, midnight 739007)"]
  by (simp add: admin_settlement_def sample_calendar time_units sample_aggregation)

text \<open>
  The partner view leaves out an application that no member created (a partner
  administrator entered it): with \<open>start_at\<close> on 15 March 2024 it lies in the period
  of March 2024, and the settlement of its partner group for March 2024 is empty.
\<close>

theorem partner_settlement_skips_proxy:
  "in_period (midnight 738946, midnight 738977)
     (sample_app\<lparr>start_at := Some (midnight 738960), created_by_member_id := None\<rparr>) \<and>
   partner_group_id
     (sample_app\<lparr>start_at := Some (midnight 738960), created_by_member_id := None\<rparr>) = 1 \<and>
   partner_admin_settlement 1 (Some 2024) (Some 3) 2024 3 [7 \<mapsto> sample_member]
     [sample_app\<lparr>start_at := Some (midnight 738960), created_by_member_id := None\<rparr>] =
   Inr \<lparr>settlements = [], total_count = 0, total_amount = 0\<rparr>"
  by (simp add: partner_admin_settlement_def sample_calendar time_units sample_aggregation)

section \<open>Creating members and partner groups: duplicates\<close>





section \<open>The gate of the global administrator's screens: what it lets through\<close>









end
